theory Spec2Isabelle
  imports Complex_Main "HOL-Library.Multiset"
begin

section \<open>Python values used by the listing store\<close>

text \<open>
  A Python \<open>str\<close> is a sequence of code points. It is modelled as \<^typ>\<open>string\<close>, whose
  characters are the code points 0 to 255; \<^term>\<open>length\<close> and \<^term>\<open>take\<close> therefore count what
  Python's \<open>len\<close> and slicing count. Strings with code points above 255 are outside the model.

  A Python \<open>float\<close> is modelled by the number it holds: a real, one of the two
  infinities, or NaN. What float arithmetic computes (a rounded sum or product, an
  overflow to infinity, the float nearest to a large \<open>int\<close>) is not fixed here: these
  operations are taken from the environment below, so that nothing proved depends on how
  they round. A Python \<open>int\<close> is an \<^typ>\<open>int\<close>.

  Standard output accepts every text: \<open>print\<close> does not raise. Exceptions that are not
  an \<open>Exception\<close> (an interrupt from the keyboard, say) are outside the model.
\<close>

datatype pyfloat = Fin real | PInf | NInf | NaN

section \<open>The data model\<close>

text \<open>
  \<open>class EbayListing\<close>. The string fields hold a \<open>str\<close> or \<open>None\<close> (\<open>csv.DictReader\<close> puts
  \<open>None\<close> where a row is shorter than the header), hence \<^typ>\<open>string option\<close>.
  \<open>created_at\<close> is the ISO text of the clock at construction.
\<close>

record listing =
  title :: "string option"
  price :: pyfloat
  description :: "string option"
  category :: "string option"
  condition :: "string option"
  quantity :: int
  created_at :: string

text \<open>The exceptions that reach the code.\<close>

datatype pyexc =
    FileNotFoundError
  | ValueError_float string
  | ValueError_int string
  | TypeError_float
  | TypeError_int
  | OverflowError
  | Env_error string

text \<open>
  Printed text. Every call of \<open>print\<close> adds one entry to standard output, a list of
  pieces in the order of the f-string: literal text, a code point above 255, a float
  formatted with \<open>.2f\<close>, the decimal text of an integer, the text of an exception.
\<close>

datatype piece =
    S string
  | U nat
  | F2 pyfloat
  | N int
  | E pyexc

type_synonym line = "piece list"

text \<open>A JSON document, as \<open>json.dump\<close> receives it.\<close>

datatype json =
    JNull
  | JStr string
  | JInt int
  | JFloat pyfloat
  | JArr "json list"
  | JObj "(string \<times> json) list"

datatype jfile = Written json | Partial

text \<open>
  The state of a run: \<open>self.listings\<close> of the one \<open>EbayXlister\<close>, what was printed so far,
  the number of clock readings taken, and the files written. (What an import reads is
  part of the environment below; no operation reads a file that an export wrote.)
\<close>

record state =
  listings :: "listing list"
  stdout :: "line list"
  clock :: nat
  files :: "string \<rightharpoonup> jfile"

section \<open>EbayListing\<close>

definition jstr :: "string option \<Rightarrow> json" where
  "jstr v = (case v of None \<Rightarrow> JNull | Some s \<Rightarrow> JStr s)"

definition to_dict :: "listing \<Rightarrow> (string \<times> json) list" where
  "to_dict l =
     [(''title'', jstr (title l)),
      (''price'', JFloat (price l)),
      (''description'', jstr (description l)),
      (''category'', jstr (category l)),
      (''condition'', jstr (condition l)),
      (''quantity'', JInt (quantity l)),
      (''created_at'', JStr (created_at l))]"

text \<open>How an f-string renders a \<open>str\<close> or \<open>None\<close>.\<close>

definition fmt_str :: "string option \<Rightarrow> piece" where
  "fmt_str v = (case v of None \<Rightarrow> S ''None'' | Some s \<Rightarrow> S s)"

definition str_listing :: "listing \<Rightarrow> line" where
  "str_listing l = [fmt_str (title l), S '' - $'', F2 (price l), S '' ('', fmt_str (condition l), S '')'']"

section \<open>The builtins \<open>float\<close> and \<open>int\<close> on strings\<close>

text \<open>
  Both builtins first remove leading and trailing whitespace. Of the code points below
  256 they treat as whitespace: tab to carriage return, the space, NEL and the
  no-break space.
\<close>

definition is_space :: "char \<Rightarrow> bool" where
  "is_space c = (let n = (of_char c :: nat) in (9 \<le> n \<and> n \<le> 13) \<or> n = 32 \<or> n = 133 \<or> n = 160)"

definition strip :: "string \<Rightarrow> string" where
  "strip s = rev (dropWhile is_space (rev (dropWhile is_space s)))"

definition is_digit :: "char \<Rightarrow> bool" where
  "is_digit c = (let n = (of_char c :: nat) in 48 \<le> n \<and> n \<le> 57)"

definition digit_val :: "char \<Rightarrow> nat" where
  "digit_val c = of_char c - 48"

definition to_lower :: "char \<Rightarrow> char" where
  "to_lower c = (let n = (of_char c :: nat) in if 65 \<le> n \<and> n \<le> 90 then char_of (n + 32) else c)"

text \<open>
  The rest of a \<open>digitpart\<close>: digits, each optionally preceded by one underscore.
  Returns the digits read and the text left.
\<close>

fun digit_run :: "nat list \<Rightarrow> string \<Rightarrow> nat list \<times> string" where
  "digit_run acc [] = (acc, [])"
| "digit_run acc (c # cs) =
     (if is_digit c then digit_run (acc @ [digit_val c]) cs
      else if c = CHR ''_'' then
        (case cs of
           [] \<Rightarrow> (acc, c # cs)
         | d # ds \<Rightarrow> if is_digit d then digit_run (acc @ [digit_val d]) ds else (acc, c # cs))
      else (acc, c # cs))"

definition digitpart :: "string \<Rightarrow> (nat list \<times> string) option" where
  "digitpart s =
     (case s of
        [] \<Rightarrow> None
      | c # cs \<Rightarrow> if is_digit c then Some (digit_run [digit_val c] cs) else None)"

definition digits_value :: "nat list \<Rightarrow> nat" where
  "digits_value ds = foldl (\<lambda>a d. 10 * a + d) 0 ds"

text \<open>An optional sign: whether it is a minus, and the text after it.\<close>

definition sign_of :: "string \<Rightarrow> bool \<times> string" where
  "sign_of s =
     (case s of
        [] \<Rightarrow> (False, s)
      | c # cs \<Rightarrow> if c = CHR ''+'' then (False, cs) else if c = CHR ''-'' then (True, cs) else (False, s))"

text \<open>
  \<open>number\<close> of the float grammar: \<open>digitpart ["." [digitpart]]\<close> or \<open>"." digitpart\<close>.
  Returns the integer digits, the fraction digits and the text left.
\<close>

definition number_of :: "string \<Rightarrow> (nat list \<times> nat list \<times> string) option" where
  "number_of s =
     (case digitpart s of
        Some (ip, r) \<Rightarrow>
          (case r of
             [] \<Rightarrow> Some (ip, [], r)
           | c # r' \<Rightarrow>
               if c = CHR ''.'' then
                 (case digitpart r' of
                    Some (fp, r'') \<Rightarrow> Some (ip, fp, r'')
                  | None \<Rightarrow> Some (ip, [], r'))
               else Some (ip, [], r))
      | None \<Rightarrow>
          (case s of
             [] \<Rightarrow> None
           | c # r' \<Rightarrow>
               if c = CHR ''.'' then
                 (case digitpart r' of
                    Some (fp, r'') \<Rightarrow> Some ([], fp, r'')
                  | None \<Rightarrow> None)
               else None))"

text \<open>
  The optional \<open>exponent\<close>, which must end the text: \<open>("e" | "E") [sign] digitpart\<close>.
\<close>

definition exponent_of :: "string \<Rightarrow> int option" where
  "exponent_of s =
     (case s of
        [] \<Rightarrow> Some 0
      | c # r \<Rightarrow>
          if c = CHR ''e'' \<or> c = CHR ''E'' then
            (case sign_of r of
               (neg, r') \<Rightarrow>
                 (case digitpart r' of
                    Some (ds, []) \<Rightarrow> Some (if neg then - int (digits_value ds) else int (digits_value ds))
                  | _ \<Rightarrow> None))
          else None)"

definition decimal_value :: "nat list \<Rightarrow> nat list \<Rightarrow> int \<Rightarrow> real" where
  "decimal_value ip fp ex =
     (let m = digits_value (ip @ fp); k = ex - int (length fp)
      in if 0 \<le> k then of_nat m * 10 ^ nat k else of_nat m / 10 ^ nat (- k))"

text \<open>
  \<open>float(s)\<close> for a \<open>str\<close>: \<open>[sign] (number [exponent] | "inf" | "infinity" | "nan")\<close>
  between optional whitespace, the words in any case. Anything else raises \<open>ValueError\<close>.
\<close>

definition py_float :: "string \<Rightarrow> pyexc + pyfloat" where
  "py_float s =
     (case sign_of (strip s) of
        (neg, r) \<Rightarrow>
          if map to_lower r = ''inf'' \<or> map to_lower r = ''infinity'' then Inr (if neg then NInf else PInf)
          else if map to_lower r = ''nan'' then Inr NaN
          else
            (case number_of r of
               None \<Rightarrow> Inl (ValueError_float s)
             | Some (ip, fp, r') \<Rightarrow>
                 (case exponent_of r' of
                    None \<Rightarrow> Inl (ValueError_float s)
                  | Some ex \<Rightarrow>
                      Inr (Fin (if neg then - decimal_value ip fp ex else decimal_value ip fp ex)))))"

text \<open>
  \<open>int(s)\<close> for a \<open>str\<close>, base 10: \<open>[sign] digitpart\<close> between optional whitespace.
  (The interpreter's limit on the number of digits is not modelled.)
\<close>

definition py_int :: "string \<Rightarrow> pyexc + int" where
  "py_int s =
     (case sign_of (strip s) of
        (neg, r) \<Rightarrow>
          (case digitpart r of
             Some (ds, []) \<Rightarrow> Inr (if neg then - int (digits_value ds) else int (digits_value ds))
           | _ \<Rightarrow> Inl (ValueError_int s)))"

section \<open>The environment\<close>

text \<open>
  \<open>csv.reader\<close> splits the text of a file into records, lists of strings; the model starts
  from these records. \<open>csv.DictReader\<close> takes the first record as the field names, skips
  empty records, and turns every other record into a dictionary: later columns of the
  same name win, and a record shorter than the header has \<open>None\<close> for the columns it
  lacks. (Values beyond the header go under the key \<open>None\<close>, which the code never reads.)
\<close>

type_synonym row = "string \<rightharpoonup> string option"

definition mk_row :: "string list \<Rightarrow> string list \<Rightarrow> row" where
  "mk_row fieldnames r =
     map_of (rev (zip fieldnames (map Some r @ replicate (length fieldnames - length r) None)))"

definition DictReader :: "string list list \<Rightarrow> row list" where
  "DictReader recs =
     (case recs of
        [] \<Rightarrow> []
      | fieldnames # rest \<Rightarrow> map (mk_row fieldnames) (filter (\<lambda>r. r \<noteq> []) rest))"

text \<open>
  What \<open>open(filepath, 'r')\<close> finds: no such file, another failure to open, or the records
  that reading yields, possibly ended by an exception of the reader.
\<close>

datatype csv_open = Absent | Denied pyexc | Records "string list list" "pyexc option"

text \<open>
  What happens to \<open>open(filepath, 'w')\<close> and \<open>json.dump\<close>: nothing, \<open>open\<close> raises, or
  writing raises after the file was opened (and truncated).
\<close>

datatype wfault = No_fault | Open_fault pyexc | Dump_fault pyexc

text \<open>
  The float arithmetic of the interpreter: \<open>float_add\<close> and \<open>float_mul\<close> are \<open>+\<close> and \<open>*\<close>
  on two floats, \<open>float_near n\<close> is the float nearest to an \<open>int\<close> that is too large to be
  held exactly and small enough to be held at all.
\<close>

record env =
  open_r :: "string \<Rightarrow> csv_open"
  open_w :: "string \<Rightarrow> wfault"
  now :: "nat \<Rightarrow> string"
  float_add :: "pyfloat \<Rightarrow> pyfloat \<Rightarrow> pyfloat"
  float_mul :: "pyfloat \<Rightarrow> pyfloat \<Rightarrow> pyfloat"
  float_near :: "int \<Rightarrow> pyfloat"

text \<open>
  A statement either completes or raises; in both cases it leaves a state.
  \<open>seq\<close> runs the next statement when the one before completed.
\<close>

type_synonym 'a result = "(pyexc + 'a) \<times> state"


definition print :: "line \<Rightarrow> state \<Rightarrow> state" where
  "print l s = s\<lparr>stdout := stdout s @ [l]\<rparr>"

text \<open>\<open>EbayListing.__init__\<close>: stores its arguments and reads the clock.\<close>

definition EbayListing ::
  "env \<Rightarrow> string option \<Rightarrow> pyfloat \<Rightarrow> string option \<Rightarrow> string option \<Rightarrow> string option \<Rightarrow> int
     \<Rightarrow> state \<Rightarrow> listing \<times> state" where
  "EbayListing ev t p d c cnd q s =
     (\<lparr>title = t, price = p, description = d, category = c, condition = cnd, quantity = q,
       created_at = now ev (clock s)\<rparr>,
      s\<lparr>clock := Suc (clock s)\<rparr>)"

section \<open>EbayXlister: adding and importing\<close>

definition add_listing :: "listing \<Rightarrow> state \<Rightarrow> state" where
  "add_listing l s =
     print ([U 0x2713, S '' Added listing: ''] @ str_listing l) (s\<lparr>listings := listings s @ [l]\<rparr>)"

text \<open>\<open>row.get(key, default)\<close> with a string default.\<close>

definition row_get :: "row \<Rightarrow> string \<Rightarrow> string \<Rightarrow> string option" where
  "row_get r k d = (case r k of None \<Rightarrow> Some d | Some v \<Rightarrow> v)"

text \<open>\<open>float(row.get('price', 0))\<close> and \<open>int(row.get('quantity', 1))\<close>.\<close>

definition row_price :: "row \<Rightarrow> pyexc + pyfloat" where
  "row_price r =
     (case r ''price'' of
        None \<Rightarrow> Inr (Fin 0)
      | Some None \<Rightarrow> Inl TypeError_float
      | Some (Some s) \<Rightarrow> py_float s)"

definition row_quantity :: "row \<Rightarrow> pyexc + int" where
  "row_quantity r =
     (case r ''quantity'' of
        None \<Rightarrow> Inr 1
      | Some None \<Rightarrow> Inl TypeError_int
      | Some (Some s) \<Rightarrow> py_int s)"

text \<open>
  The body of the loop. The arguments of the constructor are evaluated in the order
  written, so \<open>float\<close> fails before \<open>int\<close> is tried, and the clock is read only when both
  succeeded.
\<close>

definition import_row :: "env \<Rightarrow> row \<Rightarrow> state \<Rightarrow> unit result" where
  "import_row ev r s =
     (case row_price r of
        Inl e \<Rightarrow> (Inl e, s)
      | Inr p \<Rightarrow>
          (case row_quantity r of
             Inl e \<Rightarrow> (Inl e, s)
           | Inr q \<Rightarrow>
               (case EbayListing ev (row_get r ''title'' '''') p (row_get r ''description'' '''')
                       (row_get r ''category'' '''') (row_get r ''condition'' ''New'') q s of
                  (l, s') \<Rightarrow> (Inr (), add_listing l s'))))"

fun import_rows :: "env \<Rightarrow> row list \<Rightarrow> nat \<Rightarrow> state \<Rightarrow> nat result" where
  "import_rows ev [] cnt s = (Inr cnt, s)"
| "import_rows ev (r # rs) cnt s =
     (case import_row ev r s of
        (Inl e, s') \<Rightarrow> (Inl e, s')
      | (Inr _, s') \<Rightarrow> import_rows ev rs (cnt + 1) s')"

text \<open>The \<open>try\<close> block of \<open>import_from_csv\<close>.\<close>

definition import_try :: "env \<Rightarrow> string \<Rightarrow> state \<Rightarrow> unit result" where
  "import_try ev filepath s =
     (case open_r ev filepath of
        Absent \<Rightarrow> (Inl FileNotFoundError, s)
      | Denied e \<Rightarrow> (Inl e, s)
      | Records recs err \<Rightarrow>
          (case import_rows ev (DictReader recs) 0 s of
             (Inl e, s') \<Rightarrow> (Inl e, s')
           | (Inr cnt, s') \<Rightarrow>
               (case err of
                  Some e \<Rightarrow> (Inl e, s')
                | None \<Rightarrow>
                    (Inr (),
                     print [S [CHR 0x0A], U 0x2713, S '' Successfully imported '', N (int cnt),
                            S '' listings from '', S filepath] s'))))"

definition import_from_csv :: "env \<Rightarrow> string \<Rightarrow> state \<Rightarrow> unit result" where
  "import_from_csv ev filepath s =
     (case import_try ev filepath s of
        (Inr u, s') \<Rightarrow> (Inr u, s')
      | (Inl FileNotFoundError, s') \<Rightarrow>
          (Inr (), print [U 0x2717, S '' Error: File '', S [CHR 0x27], S filepath, S [CHR 0x27], S '' not found''] s')
      | (Inl e, s') \<Rightarrow> (Inr (), print [U 0x2717, S '' Error importing CSV: '', E e] s'))"

section \<open>EbayXlister: exporting and listing\<close>

definition export_data :: "state \<Rightarrow> json" where
  "export_data s = JArr (map (\<lambda>l. JObj (to_dict l)) (listings s))"

definition export_try :: "env \<Rightarrow> string \<Rightarrow> state \<Rightarrow> unit result" where
  "export_try ev filepath s =
     (let data = export_data s in
      case open_w ev filepath of
        Open_fault e \<Rightarrow> (Inl e, s)
      | Dump_fault e \<Rightarrow> (Inl e, s\<lparr>files := (files s)(filepath \<mapsto> Partial)\<rparr>)
      | No_fault \<Rightarrow>
          (Inr (),
           print [U 0x2713, S '' Exported '', N (int (length (listings s))), S '' listings to '', S filepath]
             (s\<lparr>files := (files s)(filepath \<mapsto> Written data)\<rparr>)))"

definition export_to_json :: "env \<Rightarrow> string \<Rightarrow> state \<Rightarrow> unit result" where
  "export_to_json ev filepath s =
     (case export_try ev filepath s of
        (Inr u, s') \<Rightarrow> (Inr u, s')
      | (Inl e, s') \<Rightarrow> (Inr (), print [U 0x2717, S '' Error exporting JSON: '', E e] s'))"

definition rule60 :: string where
  "rule60 = replicate 60 CHR ''=''"

text \<open>
  The lines printed for one listing; \<open>if listing.description\<close> is false for \<open>None\<close> and
  for the empty string.
\<close>

definition list_one :: "nat \<Rightarrow> listing \<Rightarrow> state \<Rightarrow> state" where
  "list_one idx l s =
     (let s1 = print ([N (int idx), S ''. ''] @ str_listing l) s;
          s2 = (case description l of
                  None \<Rightarrow> s1
                | Some d \<Rightarrow>
                    if d \<noteq> [] then print [S ''   Description: '', S (take 50 d), S ''...''] s1 else s1);
          s3 = print [S ''   Category: '', fmt_str (category l), S '' | Quantity: '', N (quantity l)] s2
      in print [] s3)"

fun list_loop :: "nat \<Rightarrow> listing list \<Rightarrow> state \<Rightarrow> state" where
  "list_loop idx [] s = s"
| "list_loop idx (l # ls) s = list_loop (Suc idx) ls (list_one idx l s)"

definition list_all' :: "state \<Rightarrow> state" where
  "list_all' s =
     (if listings s = [] then print [S ''No listings found.''] s
      else
        (let s1 = print [S (CHR 0x0A # rule60)] s;
             s2 = print [S ''Total Listings: '', N (int (length (listings s)))] s1;
             s3 = print [S (rule60 @ [CHR 0x0A])] s2
         in list_loop 1 (listings s) s3))"

section \<open>EbayXlister: total value\<close>









section \<open>The command line\<close>








section \<open>main\<close>








section \<open>Vocabulary of the properties\<close>

text \<open>
  The listing that the loop of \<open>import_from_csv\<close> builds from a row when the clock
  reads \<open>ts\<close>, or the exception that evaluating the constructor's arguments raises.
\<close>

definition parse_row :: "string \<Rightarrow> row \<Rightarrow> pyexc + listing" where
  "parse_row ts r =
     (case row_price r of
        Inl e \<Rightarrow> Inl e
      | Inr p \<Rightarrow>
          (case row_quantity r of
             Inl e \<Rightarrow> Inl e
           | Inr q \<Rightarrow>
               Inr \<lparr>title = row_get r ''title'' '''', price = p,
                    description = row_get r ''description'' '''',
                    category = row_get r ''category'' '''',
                    condition = row_get r ''condition'' ''New'', quantity = q,
                    created_at = ts\<rparr>))"

text \<open>A row parses when both conversions succeed.\<close>

definition row_ok :: "row \<Rightarrow> bool" where
  "row_ok r = (\<not> isl (row_price r) \<and> \<not> isl (row_quantity r))"

text \<open>
  The listings built from rows that all parse, the first one when the clock has been
  read \<open>k\<close> times; \<open>None\<close> when a row does not parse.
\<close>

fun built :: "env \<Rightarrow> nat \<Rightarrow> row list \<Rightarrow> listing list option" where
  "built ev k [] = Some []"
| "built ev k (r # rs) =
     (case parse_row (now ev k) r of
        Inl e \<Rightarrow> None
      | Inr l \<Rightarrow> (case built ev (Suc k) rs of None \<Rightarrow> None | Some ls \<Rightarrow> Some (l # ls)))"

definition added_line :: "listing \<Rightarrow> line" where
  "added_line l = [U 0x2713, S '' Added listing: ''] @ str_listing l"

text \<open>The state after \<open>add_listing\<close> took the freshly constructed listings \<open>ls\<close>, in order.\<close>

definition added :: "listing list \<Rightarrow> state \<Rightarrow> state" where
  "added ls s =
     s\<lparr>listings := listings s @ ls, stdout := stdout s @ map added_line ls,
       clock := clock s + length ls\<rparr>"

definition import_error_line :: "pyexc \<Rightarrow> line" where
  "import_error_line e = [U 0x2717, S '' Error importing CSV: '', E e]"

definition not_found_line :: "string \<Rightarrow> line" where
  "not_found_line filepath =
     [U 0x2717, S '' Error: File '', S [CHR 0x27], S filepath, S [CHR 0x27], S '' not found'']"

definition imported_line :: "nat \<Rightarrow> string \<Rightarrow> line" where
  "imported_line cnt filepath =
     [S [CHR 0x0A], U 0x2713, S '' Successfully imported '', N (int cnt), S '' listings from '', S filepath]"

definition exported_line :: "nat \<Rightarrow> string \<Rightarrow> line" where
  "exported_line cnt filepath =
     [U 0x2713, S '' Exported '', N (int cnt), S '' listings to '', S filepath]"

definition export_error_line :: "pyexc \<Rightarrow> line" where
  "export_error_line e = [U 0x2717, S '' Error exporting JSON: '', E e]"

text \<open>The lines of \<open>list_all\<close> for the listing at position \<open>idx\<close>, counted from 1.\<close>

definition summary_line :: "nat \<Rightarrow> listing \<Rightarrow> line" where
  "summary_line idx l = [N (int idx), S ''. ''] @ str_listing l"

definition category_line :: "listing \<Rightarrow> line" where
  "category_line l = [S ''   Category: '', fmt_str (category l), S '' | Quantity: '', N (quantity l)]"

definition listing_lines :: "nat \<Rightarrow> listing \<Rightarrow> line list" where
  "listing_lines idx l =
     [summary_line idx l] @
     (case description l of
        None \<Rightarrow> []
      | Some d \<Rightarrow> if d \<noteq> [] then [[S ''   Description: '', S (take 50 d), S ''...'']] else []) @
     [category_line l, []]"

definition list_header :: "nat \<Rightarrow> line list" where
  "list_header n =
     [[S (CHR 0x0A # rule60)], [S ''Total Listings: '', N (int n)], [S (rule60 @ [CHR 0x0A])]]"

definition description_line :: "string \<Rightarrow> line" where
  "description_line shown = [S ''   Description: '', S shown, S ''...'']"

fun all_lines :: "nat \<Rightarrow> listing list \<Rightarrow> line list" where
  "all_lines idx [] = []"
| "all_lines idx (l # ls) = listing_lines idx l @ all_lines (Suc idx) ls"



section \<open>JSON text\<close>

text \<open>
  The text that \<open>json.dump\<close> writes and \<open>json.load\<close> reads, as the sequence of its tokens:
  white space, the escapes inside a string and the digits of a number (with the
  interpreter's limit on their number) are below the model. A number token with a fraction or an exponent stands for the float it denotes
  (the text \<open>json.dump\<close> writes for a float is its \<open>repr\<close>, which \<open>float\<close> reads back as the
  same float). \<open>json.dump\<close> writes the three floats that are no numbers as \<open>NaN\<close>,
  \<open>Infinity\<close> and \<open>-Infinity\<close>, and \<open>json.load\<close> reads these words back.
\<close>

datatype tok =
    T_lbracket
  | T_rbracket
  | T_lbrace
  | T_rbrace
  | T_comma
  | T_colon
  | T_null
  | T_string string
  | T_int int
  | T_float real
  | T_NaN
  | T_Infinity
  | T_neg_Infinity

definition float_tok :: "pyfloat \<Rightarrow> tok" where
  "float_tok x = (case x of Fin r \<Rightarrow> T_float r | PInf \<Rightarrow> T_Infinity | NInf \<Rightarrow> T_neg_Infinity | NaN \<Rightarrow> T_NaN)"

fun separated :: "tok list list \<Rightarrow> tok list" where
  "separated [] = []"
| "separated [x] = x"
| "separated (x # y # zs) = x @ T_comma # separated (y # zs)"

definition member_toks :: "string \<times> tok list \<Rightarrow> tok list" where
  "member_toks kv = T_string (fst kv) # T_colon # snd kv"

primrec json_dump :: "json \<Rightarrow> tok list" where
  "json_dump JNull = [T_null]"
| "json_dump (JStr s) = [T_string s]"
| "json_dump (JInt n) = [T_int n]"
| "json_dump (JFloat x) = [float_tok x]"
| "json_dump (JArr vs) = T_lbracket # separated (map json_dump vs) @ [T_rbracket]"
| "json_dump (JObj kvs) =
     T_lbrace # separated (map member_toks (map (map_prod id json_dump) kvs)) @ [T_rbrace]"

text \<open>The members of an object, as written between the braces.\<close>

definition member_text :: "(string \<times> json) list \<Rightarrow> tok list" where
  "member_text kvs = separated (map (\<lambda>kv. T_string (fst kv) # T_colon # json_dump (snd kv)) kvs)"

text \<open>
  A \<open>dict\<close> keeps one value per key: setting a key that is present replaces its value in
  place. \<open>json.load\<close> builds the \<open>dict\<close> of an object from its members in order.
\<close>

definition dict_put :: "(string \<times> json) list \<Rightarrow> string \<times> json \<Rightarrow> (string \<times> json) list" where
  "dict_put d kv =
     (if fst kv \<in> fst ` set d then map (\<lambda>x. if fst x = fst kv then kv else x) d else d @ [kv])"

definition dict_of :: "(string \<times> json) list \<Rightarrow> (string \<times> json) list" where
  "dict_of kvs = foldl dict_put [] kvs"

text \<open>
  The parser of \<open>json.load\<close>, by recursive descent. Its first argument bounds the number
  of nested calls; \<open>json_load\<close> gives it the number of tokens, which is enough. Each
  function returns what it read and the tokens left, or \<open>None\<close> where \<open>json.load\<close> raises.
\<close>

fun parse_value :: "nat \<Rightarrow> tok list \<Rightarrow> (json \<times> tok list) option"
  and parse_elems :: "nat \<Rightarrow> tok list \<Rightarrow> (json list \<times> tok list) option"
  and parse_members :: "nat \<Rightarrow> tok list \<Rightarrow> ((string \<times> json) list \<times> tok list) option" where
  "parse_value 0 ts = None"
| "parse_value (Suc n) [] = None"
| "parse_value (Suc n) (T_null # ts) = Some (JNull, ts)"
| "parse_value (Suc n) (T_string s # ts) = Some (JStr s, ts)"
| "parse_value (Suc n) (T_int i # ts) = Some (JInt i, ts)"
| "parse_value (Suc n) (T_float r # ts) = Some (JFloat (Fin r), ts)"
| "parse_value (Suc n) (T_NaN # ts) = Some (JFloat NaN, ts)"
| "parse_value (Suc n) (T_Infinity # ts) = Some (JFloat PInf, ts)"
| "parse_value (Suc n) (T_neg_Infinity # ts) = Some (JFloat NInf, ts)"
| "parse_value (Suc n) (T_lbracket # ts) =
     (case ts of
        T_rbracket # r \<Rightarrow> Some (JArr [], r)
      | _ \<Rightarrow> (case parse_elems n ts of None \<Rightarrow> None | Some (vs, r) \<Rightarrow> Some (JArr vs, r)))"
| "parse_value (Suc n) (T_lbrace # ts) =
     (case ts of
        T_rbrace # r \<Rightarrow> Some (JObj [], r)
      | _ \<Rightarrow> (case parse_members n ts of None \<Rightarrow> None | Some (kvs, r) \<Rightarrow> Some (JObj (dict_of kvs), r)))"
| "parse_value (Suc n) (T_rbracket # ts) = None"
| "parse_value (Suc n) (T_rbrace # ts) = None"
| "parse_value (Suc n) (T_comma # ts) = None"
| "parse_value (Suc n) (T_colon # ts) = None"
| "parse_elems 0 ts = None"
| "parse_elems (Suc n) ts =
     (case parse_value n ts of
        None \<Rightarrow> None
      | Some (v, r) \<Rightarrow>
          (case r of
             T_comma # r' \<Rightarrow>
               (case parse_elems n r' of None \<Rightarrow> None | Some (vs, r'') \<Rightarrow> Some (v # vs, r''))
           | T_rbracket # r' \<Rightarrow> Some ([v], r')
           | _ \<Rightarrow> None))"
| "parse_members 0 ts = None"
| "parse_members (Suc n) ts =
     (case ts of
        T_string k # T_colon # ts' \<Rightarrow>
          (case parse_value n ts' of
             None \<Rightarrow> None
           | Some (v, r) \<Rightarrow>
               (case r of
                  T_comma # r' \<Rightarrow>
                    (case parse_members n r' of
                       None \<Rightarrow> None
                     | Some (kvs, r'') \<Rightarrow> Some ((k, v) # kvs, r''))
                | T_rbrace # r' \<Rightarrow> Some ([(k, v)], r')
                | _ \<Rightarrow> None))
      | _ \<Rightarrow> None)"

definition json_load :: "tok list \<Rightarrow> json option" where
  "json_load ts = (case parse_value (length ts) ts of Some (v, []) \<Rightarrow> Some v | _ \<Rightarrow> None)"

text \<open>\<open>==\<close> on two floats: NaN is equal to nothing, not even to itself.\<close>

definition float_eq :: "pyfloat \<Rightarrow> pyfloat \<Rightarrow> bool" where
  "float_eq a b = (a \<noteq> NaN \<and> b \<noteq> NaN \<and> a = b)"

text \<open>Documents whose objects have no key twice, as every \<open>dict\<close> gives them.\<close>

primrec keys_distinct :: "json \<Rightarrow> bool" where
  "keys_distinct JNull = True"
| "keys_distinct (JStr s) = True"
| "keys_distinct (JInt n) = True"
| "keys_distinct (JFloat x) = True"
| "keys_distinct (JArr vs) = list_all id (map keys_distinct vs)"
| "keys_distinct (JObj kvs) =
     (distinct (map fst kvs) \<and> list_all id (map snd (map (map_prod id keys_distinct) kvs)))"

section \<open>The run as the command surface describes it\<close>












text \<open>What a parser reads back from the file at a path, when the file was written whole.\<close>

definition reparse :: "state \<Rightarrow> string \<Rightarrow> json option" where
  "reparse s path =
     (case files s path of Some (Written d) \<Rightarrow> json_load (json_dump d) | _ \<Rightarrow> None)"

section \<open>A small run, to evaluate the properties on\<close>

definition start :: state where
  "start = \<lparr>listings = [], stdout = [], clock = 0, files = Map.empty\<rparr>"

definition items_csv :: "string list list" where
  "items_csv = [[''title'', ''price''], [''Lamp'', ''5''], [''Desk'', ''abc''], [''Sofa'', ''7'']]"

definition gaps_csv :: "string list list" where
  "gaps_csv = [[''title'', ''price'', ''quantity''], [''Lamp'', ''5'', ''2''], [''Desk'', '''', ''1'']]"

definition bare_csv :: "string list list" where
  "bare_csv = [[''category''], [''Garden'']]"

text \<open>A quantity of 309 digits, and a price that \<open>float\<close> reads as NaN.\<close>

definition many :: string where
  "many = CHR ''2'' # replicate 308 CHR ''0''"

definition over_csv :: "string list list" where
  "over_csv = [[''title'', ''price'', ''quantity''], [''Anvil'', ''5'', many]]"

definition nan_csv :: "string list list" where
  "nan_csv = [[''title'', ''price''], [''Lamp'', ''nan'']]"

text \<open>
  Float arithmetic for the small whole numbers of this run, where the exact result is a
  float and so is what the interpreter computes.
\<close>

definition small_add :: "pyfloat \<Rightarrow> pyfloat \<Rightarrow> pyfloat" where
  "small_add a b = (case (a, b) of (Fin x, Fin y) \<Rightarrow> Fin (x + y) | _ \<Rightarrow> NaN)"

definition small_mul :: "pyfloat \<Rightarrow> pyfloat \<Rightarrow> pyfloat" where
  "small_mul a b = (case (a, b) of (Fin x, Fin y) \<Rightarrow> Fin (x * y) | _ \<Rightarrow> NaN)"

definition demo_env :: env where
  "demo_env =
     \<lparr>open_r = (\<lambda>p. if p = ''items.csv'' then Records items_csv None
                    else if p = ''gaps.csv'' then Records gaps_csv None
                    else if p = ''bare.csv'' then Records bare_csv None
                    else if p = ''over.csv'' then Records over_csv None
                    else if p = ''nan.csv'' then Records nan_csv None
                    else Absent),
      open_w = (\<lambda>p. if p = ''out.json'' then No_fault else Open_fault (Env_error ''Permission denied'')),
      now = (\<lambda>k. if k = 0 then ''2024-05-01T10:00:00'' else ''2024-05-01T10:00:07''),
      float_add = small_add, float_mul = small_mul, float_near = (\<lambda>n. Fin (of_int n))\<rparr>"

definition lamp :: listing where
  "lamp = \<lparr>title = Some ''Lamp'', price = Fin 5, description = Some '''', category = Some '''',
           condition = Some ''New'', quantity = 1, created_at = ''2024-05-01T10:00:00''\<rparr>"

definition garden :: listing where
  "garden = \<lparr>title = Some '''', price = Fin 0, description = Some '''', category = Some ''Garden'',
             condition = Some ''New'', quantity = 1, created_at = ''2024-05-01T10:00:00''\<rparr>"

definition long_text :: string where
  "long_text = replicate 60 CHR ''x''"

definition sofa :: listing where
  "sofa = lamp\<lparr>title := Some ''Sofa'', description := Some long_text\<rparr>"

definition brass_lamp :: listing where
  "brass_lamp = lamp\<lparr>description := Some ''Brass''\<rparr>"


definition nan_lamp :: listing where
  "nan_lamp = lamp\<lparr>price := NaN\<rparr>"


definition nan_store :: state where
  "nan_store = print (imported_line 1 ''nan.csv'') (added [nan_lamp] start)"

section \<open>Importing: how the loop runs\<close>

lemma py_float_error: "py_float x = Inl e \<Longrightarrow> e = ValueError_float x"
  by (auto simp: py_float_def split: prod.splits if_splits option.splits)

lemma py_int_error: "py_int x = Inl e \<Longrightarrow> e = ValueError_int x"
  by (auto simp: py_int_def split: prod.splits if_splits option.splits list.splits)

lemma row_price_error: "row_price r = Inl e \<Longrightarrow> e = TypeError_float \<or> (\<exists>x. e = ValueError_float x)"
  by (auto simp: row_price_def split: option.splits dest: py_float_error)

lemma row_quantity_error: "row_quantity r = Inl e \<Longrightarrow> e = TypeError_int \<or> (\<exists>x. e = ValueError_int x)"
  by (auto simp: row_quantity_def split: option.splits dest: py_int_error)

lemma parse_row_error: "parse_row ts r = Inl e \<Longrightarrow> e \<noteq> FileNotFoundError"
  by (auto simp: parse_row_def split: sum.splits dest: row_price_error row_quantity_error)

lemma parse_row_error_ts: "parse_row ts r = Inl e \<Longrightarrow> parse_row ts' r = Inl e"
  by (auto simp: parse_row_def split: sum.splits)

lemma row_ok_parse: "row_ok r \<longleftrightarrow> (\<exists>l. parse_row ts r = Inr l)"
  by (cases "row_price r"; cases "row_quantity r") (auto simp: row_ok_def parse_row_def)

lemma import_row_parse:
  "import_row ev r s =
     (case parse_row (now ev (clock s)) r of
        Inl e \<Rightarrow> (Inl e, s)
      | Inr l \<Rightarrow> (Inr (), add_listing l (s\<lparr>clock := Suc (clock s)\<rparr>)))"
  by (simp add: import_row_def parse_row_def EbayListing_def split: sum.splits)

lemma added_Nil: "added [] s = s"
  by (simp add: added_def)

lemma added_Cons: "added ls (add_listing l (s\<lparr>clock := Suc (clock s)\<rparr>)) = added (l # ls) s"
  by (simp add: added_def add_listing_def print_def added_line_def)

lemma import_rows_ok:
  "built ev (clock s) rows = Some ls \<Longrightarrow>
   import_rows ev rows c s = (Inr (c + length rows), added ls s)"
proof (induction rows arbitrary: s c ls)
  case Nil
  then show ?case by (simp add: added_Nil)
next
  case (Cons r rows)
  from Cons.prems obtain l ls' where l: "parse_row (now ev (clock s)) r = Inr l"
    and ls': "built ev (Suc (clock s)) rows = Some ls'" and ls: "ls = l # ls'"
    by (auto split: sum.splits option.splits)
  let ?s = "add_listing l (s\<lparr>clock := Suc (clock s)\<rparr>)"
  have "clock ?s = Suc (clock s)" by (simp add: add_listing_def print_def)
  with ls' have "import_rows ev rows (c + 1) ?s = (Inr (c + 1 + length rows), added ls' ?s)"
    using Cons.IH by simp
  then show ?case using l ls by (simp add: import_row_parse added_Cons)
qed

lemma import_rows_fail:
  "built ev (clock s) pre = Some ls \<Longrightarrow>
   parse_row (now ev (clock s + length pre)) bad = Inl e \<Longrightarrow>
   import_rows ev (pre @ bad # post) c s = (Inl e, added ls s)"
proof (induction pre arbitrary: s c ls)
  case Nil
  then show ?case by (simp add: added_Nil import_row_parse)
next
  case (Cons r pre)
  from Cons.prems obtain l ls' where l: "parse_row (now ev (clock s)) r = Inr l"
    and ls': "built ev (Suc (clock s)) pre = Some ls'" and ls: "ls = l # ls'"
    by (auto split: sum.splits option.splits)
  let ?s = "add_listing l (s\<lparr>clock := Suc (clock s)\<rparr>)"
  have c: "clock ?s = Suc (clock s)" by (simp add: add_listing_def print_def)
  have "import_rows ev (pre @ bad # post) (c + 1) ?s = (Inl e, added ls' ?s)"
    using Cons.IH [of ?s ls' "c + 1"] ls' Cons.prems(2) c by simp
  then show ?case using l ls by (simp add: import_row_parse added_Cons)
qed

lemma built_length: "built ev k rows = Some ls \<Longrightarrow> length ls = length rows"
  by (induction rows arbitrary: k ls) (auto split: sum.splits option.splits)

lemma built_all_ok: "\<forall>r\<in>set rows. row_ok r \<Longrightarrow> \<exists>ls. built ev k rows = Some ls"
proof (induction rows arbitrary: k)
  case Nil
  then show ?case by simp
next
  case (Cons r rows)
  then obtain l where "parse_row (now ev k) r = Inr l"
    using row_ok_parse [of r "now ev k"] by auto
  moreover obtain ls where "built ev (Suc k) rows = Some ls"
    using Cons by auto
  ultimately show ?case by simp
qed

lemma built_member:
  "built ev k rows = Some ls \<Longrightarrow> l \<in> set ls \<Longrightarrow> \<exists>r\<in>set rows. \<exists>ts. parse_row ts r = Inr l"
proof (induction rows arbitrary: k ls)
  case Nil
  then show ?case by simp
next
  case (Cons r rows)
  then show ?case
    by (auto split: sum.splits option.splits) blast+
qed

lemma import_abort:
  assumes "open_r ev path = Records recs err"
    and "DictReader recs = pre @ bad # post"
    and "built ev (clock s) pre = Some ls"
    and "parse_row (now ev (clock s + length pre)) bad = Inl e"
  shows "import_from_csv ev path s = (Inr (), print (import_error_line e) (added ls s))"
proof -
  have "import_try ev path s = (Inl e, added ls s)"
    using assms by (simp add: import_try_def import_rows_fail)
  moreover have "e \<noteq> FileNotFoundError"
    using assms(4) by (rule parse_row_error)
  ultimately show ?thesis
    by (cases e) (simp_all add: import_from_csv_def import_error_line_def)
qed

lemma import_all_rows:
  assumes "open_r ev path = Records recs err"
    and "built ev (clock s) (DictReader recs) = Some ls"
  shows "\<exists>fin. import_from_csv ev path s = (Inr (), print fin (added ls s))"
proof (cases err)
  case None
  then have "import_try ev path s =
      (Inr (), print (imported_line (length (DictReader recs)) path) (added ls s))"
    using assms by (simp add: import_try_def import_rows_ok imported_line_def)
  then show ?thesis by (auto simp: import_from_csv_def)
next
  case (Some e)
  then have "import_try ev path s = (Inl e, added ls s)"
    using assms by (simp add: import_try_def import_rows_ok)
  then show ?thesis by (cases e) (auto simp: import_from_csv_def)
qed

lemma import_shape:
  assumes "open_r ev path = Records recs err"
  shows "\<exists>ls fin. built ev (clock s) (takeWhile row_ok (DictReader recs)) = Some ls
           \<and> import_from_csv ev path s = (Inr (), print fin (added ls s))"
proof -
  let ?rows = "DictReader recs"
  let ?pre = "takeWhile row_ok ?rows"
  obtain ls where ls: "built ev (clock s) ?pre = Some ls"
    using built_all_ok [of ?pre ev "clock s"] by (auto dest: set_takeWhileD)
  show ?thesis
  proof (cases "dropWhile row_ok ?rows")
    case Nil
    then have "?pre = ?rows"
      by (metis append_Nil2 takeWhile_dropWhile_id)
    with ls have "built ev (clock s) ?rows = Some ls"
      by simp
    then obtain fin where "import_from_csv ev path s = (Inr (), print fin (added ls s))"
      using import_all_rows [OF assms] by blast
    with ls show ?thesis by blast
  next
    case (Cons bad post)
    then have bad: "\<not> row_ok bad"
      by (metis hd_dropWhile list.sel(1) list.distinct(1))
    have rows: "?rows = ?pre @ bad # post"
      using Cons by (metis takeWhile_dropWhile_id)
    obtain e where "parse_row (now ev (clock s + length ?pre)) bad = Inl e"
      using bad row_ok_parse [of bad "now ev (clock s + length ?pre)"]
      by (cases "parse_row (now ev (clock s + length ?pre)) bad") auto
    then show ?thesis
      using import_abort [OF assms rows ls] ls by auto
  qed
qed

lemma mk_row_absent: "k \<notin> set h \<Longrightarrow> mk_row h r k = None"
proof -
  assume "k \<notin> set h"
  then have "k \<notin> fst ` set (rev (zip h (map Some r @ replicate (length h - length r) None)))"
    by (auto dest: set_zip_leftD)
  then show ?thesis
    unfolding mk_row_def map_of_eq_None_iff .
qed

lemma DictReader_rows: "r \<in> set (DictReader (h # recs)) \<Longrightarrow> \<exists>x. r = mk_row h x"
  by (auto simp: DictReader_def)

lemma parse_row_defaults:
  assumes "parse_row ts r = Inr l"
  shows "(r ''title'' = None \<longrightarrow> title l = Some '''')
       \<and> (r ''price'' = None \<longrightarrow> price l = Fin 0)
       \<and> (r ''description'' = None \<longrightarrow> description l = Some '''')
       \<and> (r ''category'' = None \<longrightarrow> category l = Some '''')
       \<and> (r ''condition'' = None \<longrightarrow> condition l = Some ''New'')
       \<and> (r ''quantity'' = None \<longrightarrow> quantity l = 1)"
  using assms
  by (auto simp: parse_row_def row_get_def row_price_def row_quantity_def
      split: sum.splits)

lemma py_float_empty: "py_float '''' = Inl (ValueError_float '''')"
  by (simp add: py_float_def strip_def sign_of_def number_of_def digitpart_def)

lemma py_int_empty: "py_int '''' = Inl (ValueError_int '''')"
  by (simp add: py_int_def strip_def sign_of_def digitpart_def)

lemma state_after_import:
  "listings (print fin (added ls s)) = listings s @ ls"
  "stdout (print fin (added ls s)) = stdout s @ map added_line ls @ [fin]"
  "clock (print fin (added ls s)) = clock s + length ls"
  "files (print fin (added ls s)) = files s"
  by (simp_all add: print_def added_def)

section \<open>The claim about the total value\<close>












section \<open>The claims about importing\<close>

text \<open>
  C4. Whatever the store holds, importing from a path that names no file reports the
  failure (one line, naming the path) and changes nothing else: the listings, the clock
  and the files stay as they were, and no exception leaves the call.
\<close>

theorem import_missing_file_unchanged:
  assumes "open_r ev path = Absent"
  shows "import_from_csv ev path s = (Inr (), s\<lparr>stdout := stdout s @ [not_found_line path]\<rparr>)
       \<and> listings (snd (import_from_csv ev path s)) = listings s"
  using assms
  by (simp add: import_from_csv_def import_try_def print_def not_found_line_def)

theorem import_missing_file_unchanged_witness:
  "open_r demo_env ''nowhere.csv'' = Absent
   \<and> import_from_csv demo_env ''nowhere.csv'' (added [lamp] start)
       = (Inr (), (added [lamp] start)\<lparr>stdout := [added_line lamp, not_found_line ''nowhere.csv'']\<rparr>)
   \<and> listings (snd (import_from_csv demo_env ''nowhere.csv'' (added [lamp] start))) = [lamp]"
proof -
  have h: "open_r demo_env ''nowhere.csv'' = Absent"
    by (simp add: demo_env_def)
  show ?thesis
    using h import_missing_file_unchanged [OF h, of "added [lamp] start"]
    by (simp add: added_def start_def)
qed

text \<open>
  C3. Let the rows of the source be \<open>pre\<close>, then \<open>bad\<close>, then \<open>post\<close>, where the rows of
  \<open>pre\<close> all parse (giving the listings \<open>ls\<close>) and the price of \<open>bad\<close> is a string that
  \<open>float\<close> rejects. Then the call returns without an exception; the store holds what it
  held before followed by \<open>ls\<close> in order; the output is the confirmations for \<open>ls\<close>
  followed by the report of the \<open>ValueError\<close>; and nothing of \<open>post\<close> is processed (no
  further listing, line or clock reading).
\<close>

theorem import_stops_at_bad_price:
  assumes "open_r ev path = Records recs err"
    and "DictReader recs = pre @ bad # post"
    and "built ev (clock s) pre = Some ls"
    and "bad ''price'' = Some (Some x)"
    and "py_float x = Inl e"
  shows "\<exists>s'. import_from_csv ev path s = (Inr (), s')
           \<and> listings s' = listings s @ ls
           \<and> stdout s' = stdout s @ map added_line ls @ [import_error_line (ValueError_float x)]
           \<and> clock s' = clock s + length pre
           \<and> files s' = files s"
proof -
  have "e = ValueError_float x"
    using assms(5) by (rule py_float_error)
  then have "parse_row (now ev (clock s + length pre)) bad = Inl (ValueError_float x)"
    using assms(4,5) by (simp add: parse_row_def row_price_def)
  then have "import_from_csv ev path s =
      (Inr (), print (import_error_line (ValueError_float x)) (added ls s))"
    by (rule import_abort [OF assms(1,2,3)])
  moreover have "length ls = length pre"
    using assms(3) by (rule built_length)
  ultimately show ?thesis
    by (simp add: state_after_import)
qed

theorem import_stops_at_bad_price_witness:
  "\<exists>s'. import_from_csv demo_env ''items.csv'' start = (Inr (), s')
         \<and> listings s' = [lamp]
         \<and> stdout s' = [added_line lamp, import_error_line (ValueError_float ''abc'')]
         \<and> clock s' = 1
         \<and> files s' = Map.empty"
proof -
  let ?h = "[''title'', ''price'']"
  have h1: "open_r demo_env ''items.csv'' = Records items_csv None"
    by (simp add: demo_env_def)
  have h2: "DictReader items_csv =
      [mk_row ?h [''Lamp'', ''5'']] @ mk_row ?h [''Desk'', ''abc''] # [mk_row ?h [''Sofa'', ''7'']]"
    by (simp add: DictReader_def items_csv_def)
  have p5: "py_float ''5'' = Inr (Fin 5)"
    by (simp add: py_float_def strip_def is_space_def sign_of_def to_lower_def number_of_def
        digitpart_def is_digit_def digit_val_def exponent_of_def decimal_value_def digits_value_def)
  have h3: "built demo_env (clock start) [mk_row ?h [''Lamp'', ''5'']] = Some [lamp]"
    by (simp add: parse_row_def row_price_def row_quantity_def row_get_def mk_row_def p5 lamp_def
        start_def demo_env_def)
  have h4: "mk_row ?h [''Desk'', ''abc''] ''price'' = Some (Some ''abc'')"
    by (simp add: mk_row_def)
  have h5: "py_float ''abc'' = Inl (ValueError_float ''abc'')"
    by (simp add: py_float_def strip_def is_space_def sign_of_def to_lower_def number_of_def
        digitpart_def is_digit_def)
  show ?thesis
    using import_stops_at_bad_price [OF h1 h2 h3 h4 h5]
    by (simp add: start_def)
qed

text \<open>
  C5. Let the source have the header \<open>h\<close>. The call returns; the listings it adds are
  those built from the rows up to the first one that does not parse, each one passed
  through \<open>add_listing\<close> (its confirmation is printed, in order), so the store grows by
  exactly the number of rows parsed. In every listing added, a column that the header
  lacks has its default: the empty string for title, description and category, 0 for
  the price, \<open>New\<close> for the condition, 1 for the quantity.
\<close>

theorem import_defaults_and_growth:
  assumes "open_r ev path = Records (h # recs) err"
  shows "\<exists>s' ls fin.
           import_from_csv ev path s = (Inr (), s')
         \<and> built ev (clock s) (takeWhile row_ok (DictReader (h # recs))) = Some ls
         \<and> listings s' = listings s @ ls
         \<and> length (listings s') = length (listings s) + length (takeWhile row_ok (DictReader (h # recs)))
         \<and> stdout s' = stdout s @ map added_line ls @ [fin]
         \<and> (\<forall>l\<in>set ls.
               (''title'' \<notin> set h \<longrightarrow> title l = Some '''')
             \<and> (''price'' \<notin> set h \<longrightarrow> price l = Fin 0)
             \<and> (''description'' \<notin> set h \<longrightarrow> description l = Some '''')
             \<and> (''category'' \<notin> set h \<longrightarrow> category l = Some '''')
             \<and> (''condition'' \<notin> set h \<longrightarrow> condition l = Some ''New'')
             \<and> (''quantity'' \<notin> set h \<longrightarrow> quantity l = 1))"
proof -
  let ?pre = "takeWhile row_ok (DictReader (h # recs))"
  obtain ls fin where ls: "built ev (clock s) ?pre = Some ls"
    and run: "import_from_csv ev path s = (Inr (), print fin (added ls s))"
    using import_shape [OF assms] by blast
  have len: "length ls = length ?pre"
    using ls by (rule built_length)
  have defaults:
    "(''title'' \<notin> set h \<longrightarrow> title l = Some '''')
     \<and> (''price'' \<notin> set h \<longrightarrow> price l = Fin 0)
     \<and> (''description'' \<notin> set h \<longrightarrow> description l = Some '''')
     \<and> (''category'' \<notin> set h \<longrightarrow> category l = Some '''')
     \<and> (''condition'' \<notin> set h \<longrightarrow> condition l = Some ''New'')
     \<and> (''quantity'' \<notin> set h \<longrightarrow> quantity l = 1)" if l_in: "l \<in> set ls" for l
  proof -
    obtain r ts where r: "r \<in> set ?pre" and l: "parse_row ts r = Inr l"
      using built_member [OF ls l_in] by blast
    from r have "r \<in> set (DictReader (h # recs))"
      by (rule set_takeWhileD [THEN conjunct1])
    then obtain x where "r = mk_row h x"
      using DictReader_rows by blast
    then show ?thesis
      using parse_row_defaults [OF l] by (simp add: mk_row_absent)
  qed
  show ?thesis
    using ls run len defaults by (simp add: state_after_import)
qed

theorem import_defaults_and_growth_witness:
  "\<exists>s'. import_from_csv demo_env ''bare.csv'' start = (Inr (), s')
         \<and> listings s' = [garden]
         \<and> length (stdout s') = 2"
proof -
  let ?rows = "DictReader ([''category''] # [[''Garden'']])"
  have h: "open_r demo_env ''bare.csv'' = Records ([''category''] # [[''Garden'']]) None"
    by (simp add: demo_env_def bare_csv_def)
  have ok: "row_ok (mk_row [''category''] [''Garden''])"
    by (simp add: row_ok_def row_price_def row_quantity_def mk_row_def)
  then have tw: "takeWhile row_ok ?rows = [mk_row [''category''] [''Garden'']]"
    by (simp add: DictReader_def)
  have b: "built demo_env (clock start) [mk_row [''category''] [''Garden'']] = Some [garden]"
    by (simp add: parse_row_def row_price_def row_quantity_def row_get_def mk_row_def
        start_def demo_env_def garden_def)
  obtain s' ls fin where r: "import_from_csv demo_env ''bare.csv'' start = (Inr (), s')"
    and bl: "built demo_env (clock start) (takeWhile row_ok ?rows) = Some ls"
    and l: "listings s' = listings start @ ls"
    and out: "stdout s' = stdout start @ map added_line ls @ [fin]"
    using import_defaults_and_growth [OF h, of start] by blast
  from bl tw b have "ls = [garden]"
    by simp
  with r l out show ?thesis
    by (simp add: start_def)
qed

text \<open>
  C10. Let the rows of the source be \<open>pre\<close>, then \<open>bad\<close>, then \<open>post\<close>, where the rows of
  \<open>pre\<close> all parse and \<open>bad\<close> has the empty string under \<open>price\<close> or under \<open>quantity\<close>.
  Then the import stops at \<open>bad\<close>: the store holds what it held followed by the listings
  of \<open>pre\<close>, no listing is built from \<open>bad\<close> with a default in place of the empty value,
  and the exception raised is reported (the \<open>ValueError\<close> of \<open>float\<close> when the price is
  empty, that of \<open>int\<close> when the price parses and the quantity is empty).
\<close>

theorem import_stops_at_empty_number:
  assumes "open_r ev path = Records recs err"
    and "DictReader recs = pre @ bad # post"
    and "built ev (clock s) pre = Some ls"
    and "bad ''price'' = Some (Some '''') \<or> bad ''quantity'' = Some (Some '''')"
  shows "\<exists>s' e. import_from_csv ev path s = (Inr (), s')
           \<and> listings s' = listings s @ ls
           \<and> stdout s' = stdout s @ map added_line ls @ [import_error_line e]
           \<and> (bad ''price'' = Some (Some '''') \<longrightarrow> e = ValueError_float '''')
           \<and> (isl (row_price bad) \<or> e = ValueError_int '''')"
proof -
  let ?ts = "now ev (clock s + length pre)"
  have "\<exists>e. parse_row ?ts bad = Inl e
      \<and> (bad ''price'' = Some (Some '''') \<longrightarrow> e = ValueError_float '''')
      \<and> (isl (row_price bad) \<or> e = ValueError_int '''')"
  proof (cases "bad ''price'' = Some (Some '''')")
    case True
    then have "parse_row ?ts bad = Inl (ValueError_float '''')"
      by (simp add: parse_row_def row_price_def py_float_empty)
    moreover have "isl (row_price bad)"
      using True by (simp add: row_price_def py_float_empty)
    ultimately show ?thesis by simp
  next
    case False
    with assms(4) have q: "row_quantity bad = Inl (ValueError_int '''')"
      by (simp add: row_quantity_def py_int_empty)
    show ?thesis
    proof (cases "row_price bad")
      case (Inl e)
      then show ?thesis using False by (simp add: parse_row_def)
    next
      case (Inr p)
      then show ?thesis using False q by (simp add: parse_row_def)
    qed
  qed
  then obtain e where e: "parse_row ?ts bad = Inl e"
    and e1: "bad ''price'' = Some (Some '''') \<longrightarrow> e = ValueError_float ''''"
    and e2: "isl (row_price bad) \<or> e = ValueError_int ''''"
    by blast
  have "import_from_csv ev path s = (Inr (), print (import_error_line e) (added ls s))"
    using e by (rule import_abort [OF assms(1,2,3)])
  then have "import_from_csv ev path s = (Inr (), print (import_error_line e) (added ls s))
      \<and> listings (print (import_error_line e) (added ls s)) = listings s @ ls
      \<and> stdout (print (import_error_line e) (added ls s))
          = stdout s @ map added_line ls @ [import_error_line e]
      \<and> (bad ''price'' = Some (Some '''') \<longrightarrow> e = ValueError_float '''')
      \<and> (isl (row_price bad) \<or> e = ValueError_int '''')"
    using e1 e2 by (simp add: state_after_import)
  then show ?thesis by blast
qed

theorem import_stops_at_empty_number_witness:
  "\<exists>s'. import_from_csv demo_env ''gaps.csv'' start = (Inr (), s')
         \<and> listings s' = [lamp\<lparr>quantity := 2\<rparr>]
         \<and> stdout s' = [added_line (lamp\<lparr>quantity := 2\<rparr>), import_error_line (ValueError_float '''')]"
proof -
  let ?h = "[''title'', ''price'', ''quantity'']"
  have h1: "open_r demo_env ''gaps.csv'' = Records gaps_csv None"
    by (simp add: demo_env_def)
  have h2: "DictReader gaps_csv =
      [mk_row ?h [''Lamp'', ''5'', ''2'']] @ mk_row ?h [''Desk'', '''', ''1''] # []"
    by (simp add: DictReader_def gaps_csv_def)
  have p5: "py_float ''5'' = Inr (Fin 5)"
    by (simp add: py_float_def strip_def is_space_def sign_of_def to_lower_def number_of_def
        digitpart_def is_digit_def digit_val_def exponent_of_def decimal_value_def digits_value_def)
  have p2: "py_int ''2'' = Inr 2"
    by (simp add: py_int_def strip_def is_space_def sign_of_def digitpart_def is_digit_def
        digit_val_def digits_value_def)
  have h3: "built demo_env (clock start) [mk_row ?h [''Lamp'', ''5'', ''2'']] = Some [lamp\<lparr>quantity := 2\<rparr>]"
    by (simp add: parse_row_def row_price_def row_quantity_def row_get_def mk_row_def p5 p2 lamp_def
        start_def demo_env_def)
  have h4: "mk_row ?h [''Desk'', '''', ''1''] ''price'' = Some (Some '''')
      \<or> mk_row ?h [''Desk'', '''', ''1''] ''quantity'' = Some (Some '''')"
    by (simp add: mk_row_def)
  have h4': "mk_row ?h [''Desk'', '''', ''1''] ''price'' = Some (Some '''')"
    by (simp add: mk_row_def)
  show ?thesis
    using import_stops_at_empty_number [OF h1 h2 h3 h4] h4'
    by (auto simp: start_def)
qed

section \<open>The claims about exporting and listing\<close>

lemma list_one_out: "list_one idx l s = s\<lparr>stdout := stdout s @ listing_lines idx l\<rparr>"
  by (cases "description l")
    (simp_all add: list_one_def listing_lines_def print_def summary_line_def category_line_def)

lemma list_loop_out: "list_loop idx ls s = s\<lparr>stdout := stdout s @ all_lines idx ls\<rparr>"
  by (induction ls arbitrary: idx s) (simp_all add: list_one_out)

lemma list_all_out:
  "listings s \<noteq> [] \<Longrightarrow>
   list_all' s = s\<lparr>stdout := stdout s @ list_header (length (listings s)) @ all_lines 1 (listings s)\<rparr>"
  by (simp add: list_all'_def list_loop_out print_def list_header_def)

lemma all_lines_append:
  "all_lines idx (pre @ l # post) =
     all_lines idx pre @ listing_lines (idx + length pre) l @ all_lines (Suc (idx + length pre)) post"
  by (induction pre arbitrary: idx) simp_all

lemma list_all_at:
  assumes "listings s = pre @ l # post"
  shows "stdout (list_all' s) =
     stdout s @ list_header (length (listings s)) @ all_lines 1 pre
       @ listing_lines (Suc (length pre)) l @ all_lines (Suc (Suc (length pre))) post"
proof -
  have "listings s \<noteq> []"
    using assms by simp
  then show ?thesis
    using assms by (simp add: list_all_out all_lines_append)
qed

lemma export_reports_and_returns_aux:
  "(open_w ev path = No_fault
      \<and> export_to_json ev path s =
          (Inr (), s\<lparr>files := (files s)(path \<mapsto> Written (export_data s)),
                     stdout := stdout s @ [exported_line (length (listings s)) path]\<rparr>))
   \<or> (\<exists>e. open_w ev path = Open_fault e
      \<and> export_to_json ev path s = (Inr (), s\<lparr>stdout := stdout s @ [export_error_line e]\<rparr>))
   \<or> (\<exists>e. open_w ev path = Dump_fault e
      \<and> export_to_json ev path s =
          (Inr (), s\<lparr>files := (files s)(path \<mapsto> Partial),
                     stdout := stdout s @ [export_error_line e]\<rparr>))"
  by (cases "open_w ev path")
    (simp_all add: export_to_json_def export_try_def print_def exported_line_def export_error_line_def)


text \<open>
  C8. Let the store hold a listing \<open>l\<close>, after the listings \<open>pre\<close>, whose description
  \<open>d\<close> is longer than 50 characters. Then \<open>list_all\<close> prints for it the summary line,
  a description line showing the first 50 characters of \<open>d\<close> (a proper part of \<open>d\<close>)
  followed by three dots, the category line and an empty line. An export that
  succeeds writes, at the position of \<open>l\<close>, an object whose description is all of \<open>d\<close>.
  On a store without listings \<open>list_all\<close> prints the one line \<open>No listings found.\<close>
  and changes nothing else.
\<close>

theorem long_description_cut_in_list_only:
  assumes "listings s = pre @ l # post"
    and "description l = Some d"
    and "50 < length d"
    and "open_w ev path = No_fault"
  shows "stdout (list_all' s) =
           stdout s @ list_header (length (listings s)) @ all_lines 1 pre
             @ [summary_line (Suc (length pre)) l, description_line (take 50 d), category_line l, []]
             @ all_lines (Suc (Suc (length pre))) post
       \<and> length (take 50 d) = 50 \<and> take 50 d \<noteq> d
       \<and> (\<exists>s' objs. export_to_json ev path s = (Inr (), s')
             \<and> files s' path = Some (Written (JArr objs))
             \<and> length objs = length (listings s)
             \<and> objs ! length pre = JObj (to_dict l)
             \<and> map_of (to_dict l) ''description'' = Some (JStr d))
       \<and> list_all' (s\<lparr>listings := []\<rparr>) = s\<lparr>listings := [], stdout := stdout s @ [[S ''No listings found.'']]\<rparr>"
proof -
  have d: "d \<noteq> []"
    using assms(3) by auto
  have lines: "listing_lines (Suc (length pre)) l =
      [summary_line (Suc (length pre)) l, description_line (take 50 d), category_line l, []]"
    using assms(2) d by (simp add: listing_lines_def description_line_def)
  have shown: "stdout (list_all' s) =
      stdout s @ list_header (length (listings s)) @ all_lines 1 pre
        @ [summary_line (Suc (length pre)) l, description_line (take 50 d), category_line l, []]
        @ all_lines (Suc (Suc (length pre))) post"
    using list_all_at [OF assms(1)] lines by simp
  have cut: "length (take 50 d) = 50 \<and> take 50 d \<noteq> d"
    using assms(3) by (metis length_take min.absorb4 nat_neq_iff)
  have written: "export_to_json ev path s =
      (Inr (), s\<lparr>files := (files s)(path \<mapsto> Written (export_data s)),
                 stdout := stdout s @ [exported_line (length (listings s)) path]\<rparr>)"
    using assms(4)
    by (simp add: export_to_json_def export_try_def print_def exported_line_def)
  have objs: "export_data s = JArr (map (\<lambda>l. JObj (to_dict l)) (listings s))"
    by (simp add: export_data_def)
  have at: "map (\<lambda>l. JObj (to_dict l)) (listings s) ! length pre = JObj (to_dict l)"
    using assms(1) by (simp add: nth_append)
  have full: "map_of (to_dict l) ''description'' = Some (JStr d)"
    using assms(2) by (simp add: to_dict_def jstr_def)
  have exported: "\<exists>s' objs. export_to_json ev path s = (Inr (), s')
      \<and> files s' path = Some (Written (JArr objs))
      \<and> length objs = length (listings s)
      \<and> objs ! length pre = JObj (to_dict l)
      \<and> map_of (to_dict l) ''description'' = Some (JStr d)"
    using written objs at full by simp
  have none: "list_all' (s\<lparr>listings := []\<rparr>) =
      s\<lparr>listings := [], stdout := stdout s @ [[S ''No listings found.'']]\<rparr>"
    by (simp add: list_all'_def print_def)
  show ?thesis
    using shown cut exported none by blast
qed

theorem long_description_cut_in_list_only_witness:
  "stdout (list_all' (added [lamp, sofa] start)) =
     [added_line lamp, added_line sofa] @ list_header 2 @ all_lines 1 [lamp]
       @ [summary_line 2 sofa, description_line (replicate 50 CHR ''x''), category_line sofa, []]
   \<and> (\<exists>s' objs. export_to_json demo_env ''out.json'' (added [lamp, sofa] start) = (Inr (), s')
         \<and> files s' ''out.json'' = Some (Written (JArr objs))
         \<and> objs ! 1 = JObj (to_dict sofa)
         \<and> map_of (to_dict sofa) ''description'' = Some (JStr (replicate 60 CHR ''x'')))"
proof -
  have h1: "listings (added [lamp, sofa] start) = [lamp] @ sofa # []"
    by (simp add: added_def start_def)
  have h2: "description sofa = Some long_text"
    by (simp add: sofa_def)
  have h3: "50 < length long_text"
    by (simp add: long_text_def)
  have h4: "open_w demo_env ''out.json'' = No_fault"
    by (simp add: demo_env_def)
  have t: "take 50 long_text = replicate 50 CHR ''x''"
    by (simp add: long_text_def)
  show ?thesis
    using long_description_cut_in_list_only [OF h1 h2 h3 h4] t
    by (simp add: added_def start_def long_text_def numeral_2_eq_2) blast
qed

text \<open>
  C9. Let the store hold a listing \<open>l\<close>, after the listings \<open>pre\<close>, whose description
  \<open>d\<close> is not empty and at most 50 characters long. Then the description line that
  \<open>list_all\<close> prints for it shows all of \<open>d\<close> and still ends with the three dots.
\<close>

theorem short_description_gets_dots:
  assumes "listings s = pre @ l # post"
    and "description l = Some d"
    and "d \<noteq> []"
    and "length d \<le> 50"
  shows "stdout (list_all' s) =
           stdout s @ list_header (length (listings s)) @ all_lines 1 pre
             @ [summary_line (Suc (length pre)) l, [S ''   Description: '', S d, S ''...''], category_line l, []]
             @ all_lines (Suc (Suc (length pre))) post"
proof -
  have "listing_lines (Suc (length pre)) l =
      [summary_line (Suc (length pre)) l, [S ''   Description: '', S d, S ''...''], category_line l, []]"
    using assms(2,3,4) by (simp add: listing_lines_def)
  then show ?thesis
    using list_all_at [OF assms(1)] by simp
qed

theorem short_description_gets_dots_witness:
  "stdout (list_all' (added [brass_lamp] start)) =
     [added_line brass_lamp] @ list_header 1
       @ [summary_line 1 brass_lamp, [S ''   Description: '', S ''Brass'', S ''...''],
          category_line brass_lamp, []]"
proof -
  have h1: "listings (added [brass_lamp] start) = [] @ brass_lamp # []"
    by (simp add: added_def start_def)
  have h2: "description brass_lamp = Some ''Brass''"
    by (simp add: brass_lamp_def)
  have h3: "''Brass'' \<noteq> []"
    by simp
  have h4: "length ''Brass'' \<le> 50"
    by simp
  show ?thesis
    using short_description_gets_dots [OF h1 h2 h3 h4]
    by (simp add: added_def start_def)
qed

section \<open>Reading back what was written\<close>

lemma json_dump_head:
  "\<exists>t ts. json_dump v = t # ts \<and> t \<noteq> T_rbracket \<and> t \<noteq> T_rbrace \<and> t \<noteq> T_comma \<and> t \<noteq> T_colon"
  by (cases v) (auto simp: float_tok_def split: pyfloat.splits)

lemma json_dump_length: "0 < length (json_dump v)"
  using json_dump_head [of v] by auto

lemma dict_put_fresh: "fst kv \<notin> fst ` set d \<Longrightarrow> dict_put d kv = d @ [kv]"
  by (simp add: dict_put_def)

lemma foldl_dict_put:
  "distinct (map fst (d @ kvs)) \<Longrightarrow> foldl dict_put d kvs = d @ kvs"
proof (induction kvs arbitrary: d)
  case Nil
  then show ?case by simp
next
  case (Cons kv kvs)
  then have "fst kv \<notin> fst ` set d"
    by auto
  then have "dict_put d kv = d @ [kv]"
    by (rule dict_put_fresh)
  moreover have "distinct (map fst ((d @ [kv]) @ kvs))"
    using Cons.prems by simp
  ultimately show ?case
    using Cons.IH [of "d @ [kv]"] by simp
qed

lemma dict_of_distinct: "distinct (map fst kvs) \<Longrightarrow> dict_of kvs = kvs"
  using foldl_dict_put [of "[]" kvs] by (simp add: dict_of_def)

lemma parse_elems_dump:
  assumes "\<And>v n rest. v \<in> set vs \<Longrightarrow> length (json_dump v) \<le> n \<Longrightarrow>
             parse_value n (json_dump v @ rest) = Some (v, rest)"
    and "vs \<noteq> []"
    and "length (separated (map json_dump vs)) < n"
  shows "parse_elems n (separated (map json_dump vs) @ T_rbracket # rest) = Some (vs, rest)"
  using assms
proof (induction vs arbitrary: n)
  case Nil
  then show ?case by simp
next
  case (Cons v vs)
  from Cons.prems(3) obtain m where n: "n = Suc m"
    by (cases n) auto
  have one: "parse_value k (json_dump v @ r) = Some (v, r)" if "length (json_dump v) \<le> k" for k r
    using Cons.prems(1) [of v k r] that by simp
  show ?case
  proof (cases vs)
    case Nil
    then have "length (json_dump v) \<le> m"
      using Cons.prems(3) n by simp
    then show ?thesis
      using Nil n one [of m "T_rbracket # rest"] by simp
  next
    case (Cons w ws)
    have len: "length (separated (map json_dump (v # vs))) =
        length (json_dump v) + 1 + length (separated (map json_dump vs))"
      using Cons by simp
    have v: "length (json_dump v) \<le> m"
      using Cons.prems(3) n len by simp
    have rest: "length (separated (map json_dump vs)) < m"
      using Cons.prems(3) n len json_dump_length [of v] by simp
    have tail: "parse_elems m (separated (map json_dump vs) @ T_rbracket # rest) = Some (vs, rest)"
      using Cons.IH [of m] Cons.prems(1) Cons rest by simp
    show ?thesis
      using Cons n tail
        one [OF v, of "T_comma # separated (map json_dump vs) @ T_rbracket # rest"]
      by simp
  qed
qed

lemma json_dump_object: "json_dump (JObj kvs) = T_lbrace # member_text kvs @ [T_rbrace]"
  by (simp add: member_text_def member_toks_def comp_def map_prod_def case_prod_beta)

lemma member_text_one: "member_text [kv] = T_string (fst kv) # T_colon # json_dump (snd kv)"
  by (simp add: member_text_def)

lemma member_text_more:
  "member_text (kv # kw # kws) =
     T_string (fst kv) # T_colon # json_dump (snd kv) @ T_comma # member_text (kw # kws)"
  by (simp add: member_text_def)

lemma parse_members_dump:
  assumes "\<And>kv n rest. kv \<in> set kvs \<Longrightarrow> length (json_dump (snd kv)) \<le> n \<Longrightarrow>
             parse_value n (json_dump (snd kv) @ rest) = Some (snd kv, rest)"
    and "kvs \<noteq> []"
    and "length (member_text kvs) < n"
  shows "parse_members n (member_text kvs @ T_rbrace # rest) = Some (kvs, rest)"
  using assms
proof (induction kvs arbitrary: n)
  case Nil
  then show ?case by simp
next
  case (Cons kv kvs)
  from Cons.prems(3) obtain m where n: "n = Suc m"
    by (cases n) auto
  have one: "parse_value j (json_dump (snd kv) @ r) = Some (snd kv, r)"
    if "length (json_dump (snd kv)) \<le> j" for j r
    using Cons.prems(1) [of kv j r] that by simp
  show ?case
  proof (cases kvs)
    case Nil
    then have "length (json_dump (snd kv)) \<le> m"
      using Cons.prems(3) n by (simp add: member_text_one)
    then show ?thesis
      using Nil n one [of m "T_rbrace # rest"] by (cases kv) (simp add: member_text_one)
  next
    case (Cons kw kws)
    have len: "length (member_text (kv # kvs)) = length (json_dump (snd kv)) + 3 + length (member_text kvs)"
      using Cons by (simp add: member_text_more)
    have v: "length (json_dump (snd kv)) \<le> m"
      using Cons.prems(3) len unfolding n by linarith
    have less: "length (member_text kvs) < m"
      using Cons.prems(3) len unfolding n by linarith
    have tail: "parse_members m (member_text kvs @ T_rbrace # rest) = Some (kvs, rest)"
    proof (rule Cons.IH)
      show "kvs \<noteq> []" using Cons by simp
      show "length (member_text kvs) < m" by (fact less)
      show "parse_value k (json_dump (snd x) @ r) = Some (snd x, r)"
        if "x \<in> set kvs" and "length (json_dump (snd x)) \<le> k" for x k r
        using Cons.prems(1) [of x k r] that by simp
    qed
    show ?thesis
      using Cons n tail one [OF v, of "T_comma # member_text kvs @ T_rbrace # rest"]
      by (cases kv) (simp add: member_text_more)
  qed
qed

lemma separated_head:
  "vs \<noteq> [] \<Longrightarrow> \<exists>t ts. separated (map json_dump vs) = t # ts \<and> t \<noteq> T_rbracket"
proof (cases vs)
  case Nil
  then show "vs \<noteq> [] \<Longrightarrow> ?thesis" by simp
next
  case (Cons v ws)
  then show ?thesis
    using json_dump_head [of v] by (cases ws) auto
qed

lemma parse_value_dump:
  "keys_distinct v \<Longrightarrow> length (json_dump v) \<le> n \<Longrightarrow>
   parse_value n (json_dump v @ rest) = Some (v, rest)"
proof (induction v arbitrary: n rest)
  case JNull
  then show ?case by (cases n) simp_all
next
  case (JStr s)
  then show ?case by (cases n) simp_all
next
  case (JInt i)
  then show ?case by (cases n) simp_all
next
  case (JFloat x)
  then show ?case by (cases n; cases x) (simp_all add: float_tok_def)
next
  case (JArr vs)
  from JArr.prems(2) obtain m where n: "n = Suc m"
    by (cases n) auto
  show ?case
  proof (cases "vs = []")
    case True
    then show ?thesis using n by simp
  next
    case False
    have each: "parse_value k (json_dump v @ r) = Some (v, r)"
      if "v \<in> set vs" and "length (json_dump v) \<le> k" for v k r
      using JArr.IH [OF that(1) _ that(2)] JArr.prems(1) that(1)
      by (simp add: list_all_iff)
    have "length (separated (map json_dump vs)) < m"
      using JArr.prems(2) n by simp
    then have elems: "parse_elems m (separated (map json_dump vs) @ T_rbracket # rest) = Some (vs, rest)"
      using parse_elems_dump [of vs m rest] each False by blast
    obtain t ts where "separated (map json_dump vs) = t # ts" and "t \<noteq> T_rbracket"
      using separated_head [OF False] by blast
    then show ?thesis
      using n elems by (cases t) simp_all
  qed
next
  case (JObj kvs)
  from JObj.prems(2) obtain m where n: "n = Suc m"
    by (cases n) auto
  have keys: "distinct (map fst kvs)"
    using JObj.prems(1) by simp
  have dump: "json_dump (JObj kvs) = T_lbrace # member_text kvs @ [T_rbrace]"
    by (rule json_dump_object)
  show ?case
  proof (cases "kvs = []")
    case True
    then show ?thesis using n by simp
  next
    case False
    have each: "parse_value k (json_dump (snd kv) @ r) = Some (snd kv, r)"
      if "kv \<in> set kvs" and "length (json_dump (snd kv)) \<le> k" for kv k r
    proof -
      have "keys_distinct (snd kv)"
        using JObj.prems(1) that(1) by (auto simp: list_all_iff)
      moreover have "snd kv \<in> Basic_BNFs.snds kv"
        by (cases kv) simp
      ultimately show ?thesis
        using JObj.IH [OF that(1) _ _ that(2)] by blast
    qed
    have "length (member_text kvs) < m"
      using JObj.prems(2) n unfolding dump by simp
    then have members: "parse_members m (member_text kvs @ T_rbrace # rest) = Some (kvs, rest)"
      using parse_members_dump [of kvs m rest] each False by blast
    obtain kv kws where "kvs = kv # kws"
      using False by (cases kvs) auto
    then obtain ts where "member_text kvs = T_string (fst kv) # ts"
      by (cases kws) (simp_all add: member_text_one member_text_more)
    then show ?thesis
      unfolding dump using n members keys by (simp add: dict_of_distinct)
  qed
qed

lemma json_load_dump: "keys_distinct v \<Longrightarrow> json_load (json_dump v) = Some v"
  using parse_value_dump [of v "length (json_dump v)" "[]"] by (simp add: json_load_def)

section \<open>The claim about reading an export back\<close>

lemma keys_distinct_export: "keys_distinct (export_data s)"
  by (simp add: export_data_def to_dict_def list_all_iff jstr_def split: option.split)

lemma reparse_export:
  assumes "open_w ev path = No_fault"
  shows "\<exists>s'. export_to_json ev path s = (Inr (), s') \<and> reparse s' path = Some (export_data s)"
proof -
  have run: "export_to_json ev path s =
      (Inr (), s\<lparr>files := (files s)(path \<mapsto> Written (export_data s)),
                 stdout := stdout s @ [exported_line (length (listings s)) path]\<rparr>)"
    using assms export_reports_and_returns_aux [of ev path s] by simp
  then show ?thesis
    by (simp add: reparse_def json_load_dump keys_distinct_export)
qed

lemma py_float_nan: "py_float ''nan'' = Inr NaN"
  by (simp add: py_float_def strip_def is_space_def sign_of_def to_lower_def number_of_def
      digitpart_def is_digit_def digit_val_def exponent_of_def decimal_value_def digits_value_def)

lemma import_nan_csv: "import_from_csv demo_env ''nan.csv'' start = (Inr (), nan_store)"
proof -
  let ?h = "[''title'', ''price'']"
  have rows: "DictReader nan_csv = [mk_row ?h [''Lamp'', ''nan'']]"
    by (simp add: DictReader_def nan_csv_def)
  have "built demo_env (clock start) (DictReader nan_csv) = Some [nan_lamp]"
    unfolding rows
    by (simp add: parse_row_def row_price_def row_quantity_def row_get_def mk_row_def py_float_nan
        nan_lamp_def lamp_def start_def demo_env_def)
  then have "import_rows demo_env (DictReader nan_csv) 0 start
      = (Inr (0 + length (DictReader nan_csv)), added [nan_lamp] start)"
    by (rule import_rows_ok)
  then show ?thesis
    by (simp add: import_from_csv_def import_try_def demo_env_def rows nan_store_def imported_line_def)
qed

text \<open>
  C2 does not hold as stated: the price cell \<open>nan\<close>, which \<open>float\<close> accepts, gives a
  listing whose price is NaN. The export succeeds and writes the token \<open>NaN\<close>; the
  export read back has one object, and the price in it is NaN, which is not equal to
  the price of the listing, since NaN is equal to nothing.
\<close>

theorem export_reparse_nan_counterexample:
  "import_from_csv demo_env ''nan.csv'' start = (Inr (), nan_store)
   \<and> listings nan_store = [nan_lamp]
   \<and> fst (export_to_json demo_env ''out.json'' nan_store) = Inr ()
   \<and> reparse (snd (export_to_json demo_env ''out.json'' nan_store)) ''out.json''
       = Some (JArr [JObj (to_dict nan_lamp)])
   \<and> map_of (to_dict nan_lamp) ''price'' = Some (JFloat NaN)
   \<and> \<not> float_eq NaN (price nan_lamp)"
proof -
  have l: "listings nan_store = [nan_lamp]"
    by (simp add: nan_store_def print_def added_def start_def)
  have w: "open_w demo_env ''out.json'' = No_fault"
    by (simp add: demo_env_def)
  have d: "export_data nan_store = JArr [JObj (to_dict nan_lamp)]"
    by (simp add: export_data_def l)
  have p: "map_of (to_dict nan_lamp) ''price'' = Some (JFloat NaN)"
    by (simp add: to_dict_def nan_lamp_def)
  obtain s' where run: "export_to_json demo_env ''out.json'' nan_store = (Inr (), s')"
    and rd: "reparse s' ''out.json'' = Some (export_data nan_store)"
    using reparse_export [OF w, of nan_store] by blast
  show ?thesis
    using import_nan_csv l rd p by (simp add: run float_eq_def d nan_lamp_def)
qed

text \<open>
  C2, amended. Let the destination meet no failure and let no listing held have the
  price NaN. Then the export succeeds, and the file it wrote, read back by
  \<open>json.load\<close>, is an array with one object per listing, in the order of the store; the
  object of each listing has under \<open>title\<close>, \<open>description\<close>, \<open>category\<close> and \<open>condition\<close>
  the string of the listing (or \<open>null\<close> for \<open>None\<close>), under \<open>quantity\<close> its integer, under
  \<open>created_at\<close> its timestamp, and under \<open>price\<close> a float equal to its price.
\<close>

theorem export_reparse_round_trip:
  assumes "open_w ev path = No_fault"
    and "\<forall>l\<in>set (listings s). price l \<noteq> NaN"
  shows "\<exists>s' objs.
           export_to_json ev path s = (Inr (), s')
         \<and> reparse s' path = Some (JArr objs)
         \<and> length objs = length (listings s)
         \<and> (\<forall>i<length (listings s). \<exists>kv p.
               objs ! i = JObj kv
             \<and> map fst kv =
                 [''title'', ''price'', ''description'', ''category'', ''condition'', ''quantity'',
                  ''created_at'']
             \<and> map_of kv ''title'' = Some (jstr (title (listings s ! i)))
             \<and> map_of kv ''price'' = Some (JFloat p)
             \<and> float_eq p (price (listings s ! i))
             \<and> map_of kv ''description'' = Some (jstr (description (listings s ! i)))
             \<and> map_of kv ''category'' = Some (jstr (category (listings s ! i)))
             \<and> map_of kv ''condition'' = Some (jstr (condition (listings s ! i)))
             \<and> map_of kv ''quantity'' = Some (JInt (quantity (listings s ! i)))
             \<and> map_of kv ''created_at'' = Some (JStr (created_at (listings s ! i))))"
proof -
  let ?objs = "map (\<lambda>l. JObj (to_dict l)) (listings s)"
  obtain s' where run: "export_to_json ev path s = (Inr (), s')"
    and rd: "reparse s' path = Some (JArr ?objs)"
    using reparse_export [OF assms(1), of s] unfolding export_data_def by blast
  have fields: "\<exists>kv p.
               ?objs ! i = JObj kv
             \<and> map fst kv =
                 [''title'', ''price'', ''description'', ''category'', ''condition'', ''quantity'',
                  ''created_at'']
             \<and> map_of kv ''title'' = Some (jstr (title (listings s ! i)))
             \<and> map_of kv ''price'' = Some (JFloat p)
             \<and> float_eq p (price (listings s ! i))
             \<and> map_of kv ''description'' = Some (jstr (description (listings s ! i)))
             \<and> map_of kv ''category'' = Some (jstr (category (listings s ! i)))
             \<and> map_of kv ''condition'' = Some (jstr (condition (listings s ! i)))
             \<and> map_of kv ''quantity'' = Some (JInt (quantity (listings s ! i)))
             \<and> map_of kv ''created_at'' = Some (JStr (created_at (listings s ! i)))"
    if i: "i < length (listings s)" for i
  proof -
    have "price (listings s ! i) \<noteq> NaN"
      using assms(2) i by simp
    then show ?thesis
      using i by (simp add: to_dict_def float_eq_def)
  qed
  have "export_to_json ev path s = (Inr (), s')
       \<and> reparse s' path = Some (JArr ?objs)
       \<and> length ?objs = length (listings s)"
    using run rd by simp
  then show ?thesis
    using fields by blast
qed

theorem export_reparse_round_trip_witness:
  "\<exists>s' kv. export_to_json demo_env ''out.json'' (added [lamp] start) = (Inr (), s')
         \<and> reparse s' ''out.json'' = Some (JArr [JObj kv])
         \<and> map_of kv ''title'' = Some (JStr ''Lamp'')
         \<and> map_of kv ''price'' = Some (JFloat (Fin 5))
         \<and> map_of kv ''quantity'' = Some (JInt 1)"
proof -
  let ?s = "added [lamp] start"
  have w: "open_w demo_env ''out.json'' = No_fault"
    by (simp add: demo_env_def)
  have l: "listings ?s = [lamp]"
    by (simp add: added_def start_def)
  have n: "\<forall>l\<in>set (listings ?s). price l \<noteq> NaN"
    unfolding l by (simp add: lamp_def)
  obtain s' objs where run: "export_to_json demo_env ''out.json'' ?s = (Inr (), s')"
    and rd: "reparse s' ''out.json'' = Some (JArr objs)"
    and len: "length objs = length (listings ?s)"
    and fields: "\<forall>i<length (listings ?s). \<exists>kv p.
               objs ! i = JObj kv
             \<and> map fst kv =
                 [''title'', ''price'', ''description'', ''category'', ''condition'', ''quantity'',
                  ''created_at'']
             \<and> map_of kv ''title'' = Some (jstr (title (listings ?s ! i)))
             \<and> map_of kv ''price'' = Some (JFloat p)
             \<and> float_eq p (price (listings ?s ! i))
             \<and> map_of kv ''description'' = Some (jstr (description (listings ?s ! i)))
             \<and> map_of kv ''category'' = Some (jstr (category (listings ?s ! i)))
             \<and> map_of kv ''condition'' = Some (jstr (condition (listings ?s ! i)))
             \<and> map_of kv ''quantity'' = Some (JInt (quantity (listings ?s ! i)))
             \<and> map_of kv ''created_at'' = Some (JStr (created_at (listings ?s ! i)))"
    using export_reparse_round_trip [OF w n] by blast
  from fields l obtain kv p where kv: "objs ! 0 = JObj kv"
    and t: "map_of kv ''title'' = Some (jstr (title lamp))"
    and p: "map_of kv ''price'' = Some (JFloat p)" and pe: "float_eq p (price lamp)"
    and q: "map_of kv ''quantity'' = Some (JInt (quantity lamp))"
    by auto
  from len l have "objs = [objs ! 0]"
    by (cases objs) simp_all
  then have o: "objs = [JObj kv]"
    using kv by simp
  have "p = Fin 5"
    using pe by (simp add: float_eq_def lamp_def)
  then show ?thesis
    using run rd o t p q by (simp add: jstr_def lamp_def)
qed

section \<open>The claim about the command line\<close>




























end
